theory Spec2Isabelle
  imports Complex_Main
begin

section \<open>Tax liability (utils/tax\_calculator.py)\<close>

text \<open>
  Python numbers are modelled as exact rationals. The only non-finite value the
  application ever stores in a bracket is \<open>float('inf')\<close> as the \<open>max\<close> of the
  highest bracket, so \<open>max\<close> is a finite amount or \<open>Unbounded\<close>.
\<close>

datatype limit = Amount rat | Unbounded

record tax_bracket =
  min_amount :: rat
  max_amount :: limit
  rate :: rat

record breakdown_entry = tax_bracket +
  income_in_bracket :: rat
  tax_amount :: rat

record tax_info =
  annual_income :: rat
  total_tax :: rat
  effective_rate :: rat
  bracket_breakdown :: "breakdown_entry list"

text \<open>
  The \<open>if/elif/else\<close> chain that computes \<open>income_in_bracket\<close> from the income that
  is still left. With \<open>max = inf\<close> the test \<open>min <= remaining <= max\<close> is
  \<open>min <= remaining\<close> and \<open>remaining > max\<close> is false.
\<close>

definition bracket_income :: "rat \<Rightarrow> tax_bracket \<Rightarrow> rat" where
  "bracket_income remaining_income b =
     (if remaining_income \<le> 0 then 0
      else (case max_amount b of
              Amount m \<Rightarrow>
                if min_amount b \<le> remaining_income \<and> remaining_income \<le> m
                  then remaining_income - min_amount b
                else if remaining_income > m then m - min_amount b
                else 0
            | Unbounded \<Rightarrow>
                if min_amount b \<le> remaining_income
                  then remaining_income - min_amount b
                else 0))"

definition make_entry :: "tax_bracket \<Rightarrow> rat \<Rightarrow> rat \<Rightarrow> breakdown_entry" where
  "make_entry b inc tax =
     \<lparr>min_amount = min_amount b, max_amount = max_amount b, rate = rate b,
      income_in_bracket = inc, tax_amount = tax\<rparr>"

text \<open>
  The \<open>for bracket in sorted_brackets\<close> loop. The state is
  \<open>(total_tax, remaining_income, bracket_breakdown)\<close>; the \<open>break\<close> is the
  branch that returns without looking at the remaining brackets.
\<close>

fun tax_loop ::
  "tax_bracket list \<Rightarrow> rat \<Rightarrow> rat \<Rightarrow> breakdown_entry list
     \<Rightarrow> rat \<times> rat \<times> breakdown_entry list" where
  "tax_loop [] total_acc remaining breakdown = (total_acc, remaining, breakdown)"
| "tax_loop (b # bs) total_acc remaining breakdown =
     (let inc = bracket_income remaining b;
          tax = inc * rate b;
          total' = total_acc + tax;
          remaining' = remaining - inc;
          breakdown' = (if inc > 0 then breakdown @ [make_entry b inc tax]
                        else breakdown)
      in if remaining' \<le> 0 then (total', remaining', breakdown')
         else tax_loop bs total' remaining' breakdown')"

definition calculate_tax_liability :: "rat \<Rightarrow> tax_bracket list \<Rightarrow> tax_info" where
  "calculate_tax_liability income tax_brackets =
     (let sorted_brackets = sort_key min_amount tax_brackets;
          (total_acc, remaining, breakdown) = tax_loop sorted_brackets 0 income []
      in \<lparr>annual_income = income,
          total_tax = total_acc,
          effective_rate = (if income > 0 then total_acc / income * 100 else 0),
          bracket_breakdown = breakdown\<rparr>)"

text \<open>The default table of app.py (US 2023, single filer).\<close>

definition default_tax_brackets :: "tax_bracket list" where
  "default_tax_brackets =
     [\<lparr>min_amount = 0, max_amount = Amount 11000, rate = 10 / 100\<rparr>,
      \<lparr>min_amount = 11000, max_amount = Amount 44725, rate = 12 / 100\<rparr>,
      \<lparr>min_amount = 44725, max_amount = Amount 95375, rate = 22 / 100\<rparr>,
      \<lparr>min_amount = 95375, max_amount = Amount 182100, rate = 24 / 100\<rparr>,
      \<lparr>min_amount = 182100, max_amount = Amount 231250, rate = 32 / 100\<rparr>,
      \<lparr>min_amount = 231250, max_amount = Amount 578125, rate = 35 / 100\<rparr>,
      \<lparr>min_amount = 578125, max_amount = Unbounded, rate = 37 / 100\<rparr>]"

text \<open>A bracket whose span is not empty backwards: \<open>min <= max\<close>.\<close>

definition span_ok :: "tax_bracket \<Rightarrow> bool" where
  "span_ok b = (case max_amount b of Amount m \<Rightarrow> min_amount b \<le> m | Unbounded \<Rightarrow> True)"

section \<open>Amount normalisation, split debit/credit columns (utils/file\_handler.py)\<close>

text \<open>
  \<open>parse_csv\<close>, lines 254 to 265. \<open>credit_values\<close> and the debit column are the
  numbers \<open>pd.to_numeric(...).fillna(0)\<close> produced for one row (an unparsable cell
  is 0). The three assignments to \<open>combined_amount\<close> are row-wise: the sum first,
  then the two masked overwrites, credit before debit.
\<close>

definition combined_amount :: "rat \<Rightarrow> rat \<Rightarrow> rat" where
  "combined_amount credit_values debit_parsed =
     (let debit_values = - 1 * \<bar>debit_parsed\<bar>;
          combined = credit_values + debit_values;
          combined = (if credit_values \<noteq> 0 then credit_values else combined);
          combined = (if debit_values \<noteq> 0 then debit_values else combined)
      in combined)"

section \<open>Ledger merge on import (app.py, sidebar import handler)\<close>

text \<open>
  A row of the ledger. \<open>date\<close> is the timestamp as a number; rows with an invalid
  date or amount were dropped by the parser. \<open>category\<close> and \<open>subcategory\<close> are
  written by the classifier, \<open>statement_id\<close> by the import handler.
\<close>

record transaction =
  date :: int
  description :: string
  amount :: rat
  category :: string
  subcategory :: string
  statement_id :: string

definition dedup_key :: "transaction \<Rightarrow> int \<times> string \<times> rat" where
  "dedup_key r = (date r, description r, amount r)"

text \<open>
  \<open>drop_duplicates(subset=[...], keep='first')\<close>: a row is kept when no earlier row
  has its key; \<open>seen\<close> holds the keys met so far.
\<close>

fun drop_duplicates_from :: "'k list \<Rightarrow> ('a \<Rightarrow> 'k) \<Rightarrow> 'a list \<Rightarrow> 'a list" where
  "drop_duplicates_from seen f [] = []"
| "drop_duplicates_from seen f (r # rs) =
     (if f r \<in> set seen then drop_duplicates_from seen f rs
      else r # drop_duplicates_from (f r # seen) f rs)"

definition drop_duplicates :: "transaction list \<Rightarrow> transaction list" where
  "drop_duplicates rows = drop_duplicates_from [] dedup_key rows"

text \<open>
  \<open>sort_values('date', ascending=False)\<close>. The model keeps rows of equal date in
  their order; pandas' default sort does not promise that, and no statement below
  depends on the order of rows of equal date.
\<close>

definition sort_values_date_desc :: "transaction list \<Rightarrow> transaction list" where
  "sort_values_date_desc rows = sort_key (\<lambda>r. - date r) rows"

text \<open>
  The import handler, lines 114 to 162. Nothing happens when the parser returned no
  rows (\<open>if new_data is not None and not new_data.empty\<close>): the ledger stays as it
  is. Otherwise the parsed rows get the statement id (line 130); when the current
  ledger is not empty they are appended to it and \<open>drop_duplicates\<close> runs on the
  whole (lines 152 to 154), and when it is empty \<open>combined_data = new_data\<close>
  (line 156); the result is sorted by date, latest first (line 162). The handler then
  stores \<open>categorize_transactions\<close> of the result, which writes the \<open>category\<close> and
  \<open>subcategory\<close> columns only.
\<close>

definition merge_statements ::
  "string \<Rightarrow> transaction list \<Rightarrow> transaction list \<Rightarrow> transaction list" where
  "merge_statements sid current_data parsed =
     (if parsed = [] then current_data
      else
        (let new_data = map (\<lambda>r. r\<lparr>statement_id := sid\<rparr>) parsed;
             combined_data = (if current_data \<noteq> []
                              then drop_duplicates (current_data @ new_data)
                              else new_data)
         in sort_values_date_desc combined_data))"

text \<open>Three rows used as concrete inputs.\<close>

definition coffee :: transaction where
  "coffee = \<lparr>date = 3, description = ''COFFEE'', amount = - 3, category = [],
             subcategory = [], statement_id = []\<rparr>"

definition rent :: transaction where
  "rent = \<lparr>date = 1, description = ''RENT'', amount = - 900, category = [],
           subcategory = [], statement_id = []\<rparr>"

definition salary :: transaction where
  "salary = \<lparr>date = 2, description = ''ACME LTD'', amount = 2500, category = [],
             subcategory = [], statement_id = []\<rparr>"

section \<open>Python string operations\<close>

text \<open>
  A Python \<open>str\<close> is modelled as a \<open>string\<close> of ASCII characters, which is what
  the rule tables and keyword lists of the program hold. The character classes below
  are Python's on ASCII: a character outside ASCII counts as neither whitespace nor a
  word character and has no other case.
\<close>

text \<open>\<open>ord(c)\<close>, the code point.\<close>

definition code_point :: "char \<Rightarrow> nat" where
  "code_point c = of_char c"




text \<open>\<open>str.isspace\<close>: tab, line feed, vertical tab, form feed, carriage return,
  the separators \<open>0x1c\<close> to \<open>0x1f\<close>, and the space.\<close>

definition isspace :: "char \<Rightarrow> bool" where
  "isspace c = ((9 \<le> code_point c \<and> code_point c \<le> 13)
                \<or> (28 \<le> code_point c \<and> code_point c \<le> 32))"





text \<open>
  \<open>s.split()\<close> with no argument: the maximal runs of characters that are not
  whitespace. \<open>word\<close> is the run being read, reversed.
\<close>

fun split_from :: "string \<Rightarrow> string \<Rightarrow> string list" where
  "split_from word [] = (if word = [] then [] else [rev word])"
| "split_from word (c # cs) =
     (if isspace c then (if word = [] then split_from [] cs else rev word # split_from [] cs)
      else split_from (c # word) cs)"

definition split :: "string \<Rightarrow> string list" where
  "split s = split_from [] s"

text \<open>\<open>' '.join(words)\<close>.\<close>

fun join_space :: "string list \<Rightarrow> string" where
  "join_space [] = []"
| "join_space [w] = w"
| "join_space (w # v # ws) = w @ CHR '' '' # join_space (v # ws)"









section \<open>Vendor rule table (utils/vendor\_database.py)\<close>



section \<open>Vendor matching (utils/vendor\_database.py, match\_vendor)\<close>
















section \<open>Properties of the tax calculation\<close>

lemma bracket_income_nonneg: "span_ok b \<Longrightarrow> 0 \<le> bracket_income r b"
  by (auto simp: bracket_income_def span_ok_def split: limit.splits)

lemma bracket_income_nonpos: "r \<le> 0 \<Longrightarrow> bracket_income r b = 0"
  by (simp add: bracket_income_def)

lemma bracket_income_mono:
  "span_ok b \<Longrightarrow> r1 \<le> r2 \<Longrightarrow> bracket_income r1 b \<le> bracket_income r2 b"
  by (auto simp: bracket_income_def span_ok_def split: limit.splits)

lemma rest_mono:
  "span_ok b \<Longrightarrow> r1 \<le> r2 \<Longrightarrow> 0 < r1 - bracket_income r1 b
     \<Longrightarrow> r1 - bracket_income r1 b \<le> r2 - bracket_income r2 b"
  by (auto simp: bracket_income_def span_ok_def split: limit.splits if_splits)

text \<open>The running total is an accumulator: the loop adds to whatever it starts from.\<close>

lemma tax_loop_total_acc:
  "fst (tax_loop bs t r bd) = t + fst (tax_loop bs 0 r bd0)"
proof (induction bs arbitrary: t r bd bd0)
  case Nil
  show ?case by simp
next
  case (Cons b bs)
  let ?inc = "bracket_income r b"
  show ?case
  proof (cases "r - ?inc \<le> 0")
    case True
    then show ?thesis by (simp add: Let_def)
  next
    case False
    have "fst (tax_loop (b # bs) t r bd)
            = (t + ?inc * rate b) + fst (tax_loop bs 0 (r - ?inc) [])"
      using False Cons.IH [of "t + ?inc * rate b" "r - ?inc" _ "[]"]
      by (simp add: Let_def)
    moreover have "fst (tax_loop (b # bs) 0 r bd0)
            = (?inc * rate b) + fst (tax_loop bs 0 (r - ?inc) [])"
      using False Cons.IH [of "?inc * rate b" "r - ?inc" _ "[]"]
      by (simp add: Let_def)
    ultimately show ?thesis by simp
  qed
qed

text \<open>Once nothing is left, no bracket adds anything, so the \<open>break\<close> changes no total.\<close>

lemma tax_loop_exhausted: "r \<le> 0 \<Longrightarrow> fst (tax_loop bs t r bd) = t"
  by (cases bs) (simp_all add: Let_def bracket_income_nonpos)

lemma tax_loop_step:
  "fst (tax_loop (b # bs) 0 r bd)
     = bracket_income r b * rate b + fst (tax_loop bs 0 (r - bracket_income r b) [])"
proof (cases "r - bracket_income r b \<le> 0")
  case True
  then show ?thesis by (simp add: Let_def tax_loop_exhausted)
next
  case False
  then show ?thesis
    using tax_loop_total_acc [of bs "bracket_income r b * rate b" "r - bracket_income r b" _ "[]"]
    by (simp add: Let_def)
qed

lemma tax_loop_nonneg:
  "\<forall>b\<in>set bs. span_ok b \<and> 0 \<le> rate b \<Longrightarrow> 0 \<le> fst (tax_loop bs 0 r bd)"
proof (induction bs arbitrary: r bd)
  case Nil
  show ?case by simp
next
  case (Cons b bs)
  have "0 \<le> bracket_income r b * rate b"
    using Cons.prems by (simp add: bracket_income_nonneg)
  moreover have "0 \<le> fst (tax_loop bs 0 (r - bracket_income r b) [])"
    using Cons by simp
  ultimately show ?case unfolding tax_loop_step by linarith
qed

lemma tax_loop_mono:
  "\<forall>b\<in>set bs. span_ok b \<and> 0 \<le> rate b \<Longrightarrow> r1 \<le> r2
     \<Longrightarrow> fst (tax_loop bs 0 r1 bd1) \<le> fst (tax_loop bs 0 r2 bd2)"
proof (induction bs arbitrary: r1 r2 bd1 bd2)
  case Nil
  show ?case by simp
next
  case (Cons b bs)
  let ?i1 = "bracket_income r1 b" and ?i2 = "bracket_income r2 b"
  have ok: "span_ok b" "0 \<le> rate b" "\<forall>b\<in>set bs. span_ok b \<and> 0 \<le> rate b"
    using Cons.prems by simp_all
  have "?i1 \<le> ?i2" using ok Cons.prems by (simp add: bracket_income_mono)
  then have a: "?i1 * rate b \<le> ?i2 * rate b"
    using ok by (simp add: mult_right_mono)
  have b: "fst (tax_loop bs 0 (r1 - ?i1) []) \<le> fst (tax_loop bs 0 (r2 - ?i2) [])"
  proof (cases "r1 - ?i1 \<le> 0")
    case True
    then show ?thesis using tax_loop_nonneg [OF ok(3)] by (simp add: tax_loop_exhausted)
  next
    case False
    then have "r1 - ?i1 \<le> r2 - ?i2" using rest_mono [OF ok(1) Cons.prems(2)] by simp
    then show ?thesis using Cons.IH ok by blast
  qed
  show ?case unfolding tax_loop_step using a b by linarith
qed

lemma total_tax_calc:
  "total_tax (calculate_tax_liability i bs) = fst (tax_loop (sort_key min_amount bs) 0 i [])"
  by (simp add: calculate_tax_liability_def Let_def split: prod.splits)

lemma tax_loop_entries:
  "\<forall>e\<in>set bd. 0 < income_in_bracket e \<and> tax_amount e = income_in_bracket e * rate e
     \<Longrightarrow> e \<in> set (snd (snd (tax_loop bs t r bd)))
     \<Longrightarrow> 0 < income_in_bracket e \<and> tax_amount e = income_in_bracket e * rate e"
proof (induction bs arbitrary: t r bd)
  case Nil
  then show ?case by simp
next
  case (Cons b bs)
  define inc where "inc = bracket_income r b"
  define bd' where "bd' = (if 0 < inc then bd @ [make_entry b inc (inc * rate b)] else bd)"
  have ok: "\<forall>e\<in>set bd'. 0 < income_in_bracket e \<and> tax_amount e = income_in_bracket e * rate e"
  proof (cases "0 < inc")
    case True
    then have "bd' = bd @ [make_entry b inc (inc * rate b)]" by (simp add: bd'_def)
    moreover have "0 < income_in_bracket (make_entry b inc (inc * rate b))
         \<and> tax_amount (make_entry b inc (inc * rate b))
             = income_in_bracket (make_entry b inc (inc * rate b)) * rate (make_entry b inc (inc * rate b))"
      using True by (simp add: make_entry_def)
    ultimately show ?thesis using Cons.prems(1) by auto
  next
    case False
    then have "bd' = bd" by (simp add: bd'_def)
    then show ?thesis using Cons.prems(1) by simp
  qed
  have step: "tax_loop (b # bs) t r bd
          = (if r - inc \<le> 0 then (t + inc * rate b, r - inc, bd')
             else tax_loop bs (t + inc * rate b) (r - inc) bd')"
    by (simp add: Let_def inc_def bd'_def)
  show ?case
  proof (cases "r - inc \<le> 0")
    case True
    then have "e \<in> set bd'" using Cons.prems(2) unfolding step by simp
    then show ?thesis using ok by blast
  next
    case False
    then have "e \<in> set (snd (snd (tax_loop bs (t + inc * rate b) (r - inc) bd')))"
      using Cons.prems(2) unfolding step by simp
    then show ?thesis using Cons.IH [OF ok] by blast
  qed
qed

lemma tax_loop_total_breakdown:
  "\<forall>b\<in>set bs. span_ok b
     \<Longrightarrow> fst (tax_loop bs t r bd) - sum_list (map tax_amount (snd (snd (tax_loop bs t r bd))))
           = t - sum_list (map tax_amount bd)"
proof (induction bs arbitrary: t r bd)
  case Nil
  show ?case by simp
next
  case (Cons b bs)
  let ?inc = "bracket_income r b"
  have nonneg: "0 \<le> ?inc" using Cons.prems by (simp add: bracket_income_nonneg)
  show ?case
  proof (cases "0 < ?inc")
    case True
    then show ?thesis
      using Cons.IH [of "t + ?inc * rate b" "r - ?inc" "bd @ [make_entry b ?inc (?inc * rate b)]"]
            Cons.prems
      by (simp add: Let_def make_entry_def)
  next
    case False
    then have "?inc = 0" using nonneg by simp
    then show ?thesis
      using Cons.IH [of t r bd] Cons.prems by (simp add: Let_def)
  qed
qed

text \<open>
  Claim C1. For the default seven-bracket table and \<open>annual_income = 75000\<close> the
  spec expects \<open>total_tax = 0.10*11000 + 0.12*(44725-11000) + 0.22*(75000-44725)\<close>,
  which is 11807.5, and \<open>effective_rate = total_tax/75000*100\<close>. The code
  compares the income that is left after the lower brackets (64000, then 30275) with
  the absolute bounds of the next bracket, so the third bracket (from 44725) receives
  nothing: the breakdown has the two entries 11000 and 33725 and the total is 5147.
  The effective rate is the returned total divided by 75000, times 100.
\<close>

theorem default_table_75000:
  "total_tax (calculate_tax_liability 75000 default_tax_brackets) = 5147
   \<and> total_tax (calculate_tax_liability 75000 default_tax_brackets)
        \<noteq> 10 / 100 * 11000 + 12 / 100 * (44725 - 11000) + 22 / 100 * (75000 - 44725)
   \<and> map income_in_bracket
        (bracket_breakdown (calculate_tax_liability 75000 default_tax_brackets))
        = [11000, 33725]
   \<and> effective_rate (calculate_tax_liability 75000 default_tax_brackets)
        = total_tax (calculate_tax_liability 75000 default_tax_brackets) / 75000 * 100"
  by (simp add: calculate_tax_liability_def default_tax_brackets_def bracket_income_def
      make_entry_def Let_def)

text \<open>
  Claim C9, as amended. For every list of brackets sorted ascending by \<open>min\<close> in which
  every bracket has \<open>min <= max\<close> and a rate that is not negative, \<open>total_tax\<close> is
  non-decreasing in \<open>annual_income\<close>.
\<close>

theorem tax_monotone:
  assumes "sorted (map min_amount brackets)"
    and "\<forall>b\<in>set brackets. span_ok b \<and> 0 \<le> rate b"
    and "i1 \<le> i2"
  shows "total_tax (calculate_tax_liability i1 brackets)
           \<le> total_tax (calculate_tax_liability i2 brackets)"
proof -
  have "\<forall>b\<in>set (sort_key min_amount brackets). span_ok b \<and> 0 \<le> rate b"
    using assms(2) by simp
  then show ?thesis using assms(3) by (simp only: total_tax_calc tax_loop_mono)
qed

theorem tax_monotone_witness:
  "sorted (map min_amount default_tax_brackets)
   \<and> list_all (\<lambda>b. span_ok b \<and> 0 \<le> rate b) default_tax_brackets
   \<and> total_tax (calculate_tax_liability 11000 default_tax_brackets) = 1100
   \<and> total_tax (calculate_tax_liability 75000 default_tax_brackets) = 5147
   \<and> total_tax (calculate_tax_liability 11000 default_tax_brackets)
        \<le> total_tax (calculate_tax_liability 75000 default_tax_brackets)"
proof -
  have s: "sorted (map min_amount default_tax_brackets)"
    by (simp add: default_tax_brackets_def)
  have ok: "\<forall>b\<in>set default_tax_brackets. span_ok b \<and> 0 \<le> rate b"
    by (simp add: default_tax_brackets_def span_ok_def)
  have le: "(11000::rat) \<le> 75000" by simp
  have v1: "total_tax (calculate_tax_liability 11000 default_tax_brackets) = 1100"
    by (simp add: calculate_tax_liability_def default_tax_brackets_def bracket_income_def Let_def)
  have v2: "total_tax (calculate_tax_liability 75000 default_tax_brackets) = 5147"
    by (simp add: calculate_tax_liability_def default_tax_brackets_def bracket_income_def Let_def)
  show ?thesis
    using tax_monotone [OF s ok le] s ok v1 v2 by (simp add: list_all_iff)
qed

text \<open>
  The claim as stated, for every sorted list of brackets, fails on a bracket whose
  \<open>max\<close> lies below its \<open>min\<close> (the bracket editor bounds each field from below by 0
  and does not compare them): an income of 3 is taxed 0 and an income of 7 is taxed
  \<open>(5 - 10) * 0.1\<close>. It fails on a negative rate as well.
\<close>

theorem tax_monotone_counterexample:
  "sorted (map min_amount [\<lparr>min_amount = 10, max_amount = Amount 5, rate = 1 / 10\<rparr>])
   \<and> (3::rat) \<le> 7
   \<and> total_tax (calculate_tax_liability 3
        [\<lparr>min_amount = 10, max_amount = Amount 5, rate = 1 / 10\<rparr>]) = 0
   \<and> total_tax (calculate_tax_liability 7
        [\<lparr>min_amount = 10, max_amount = Amount 5, rate = 1 / 10\<rparr>]) = - (1 / 2)
   \<and> \<not> total_tax (calculate_tax_liability 3
          [\<lparr>min_amount = 10, max_amount = Amount 5, rate = 1 / 10\<rparr>])
        \<le> total_tax (calculate_tax_liability 7
          [\<lparr>min_amount = 10, max_amount = Amount 5, rate = 1 / 10\<rparr>])
   \<and> \<not> total_tax (calculate_tax_liability 5
          [\<lparr>min_amount = 0, max_amount = Amount 100, rate = - (1 / 10)\<rparr>])
        \<le> total_tax (calculate_tax_liability 10
          [\<lparr>min_amount = 0, max_amount = Amount 100, rate = - (1 / 10)\<rparr>])"
  by (simp add: calculate_tax_liability_def bracket_income_def Let_def)

text \<open>
  Claim C10, as amended. For every income and bracket list, every entry of
  \<open>bracket_breakdown\<close> has \<open>income_in_bracket > 0\<close> and
  \<open>tax_amount = income_in_bracket * rate\<close>; and when every bracket has
  \<open>min <= max\<close>, \<open>total_tax\<close> is the sum of \<open>tax_amount\<close> over the entries.
\<close>

theorem breakdown_consistent:
  "(\<forall>e\<in>set (bracket_breakdown (calculate_tax_liability income brackets)).
       0 < income_in_bracket e \<and> tax_amount e = income_in_bracket e * rate e)
   \<and> ((\<forall>b\<in>set brackets. span_ok b) \<longrightarrow>
        total_tax (calculate_tax_liability income brackets)
          = sum_list (map tax_amount
              (bracket_breakdown (calculate_tax_liability income brackets))))"
proof -
  let ?bs = "sort_key min_amount brackets"
  have bd: "bracket_breakdown (calculate_tax_liability income brackets)
              = snd (snd (tax_loop ?bs 0 income []))"
    by (simp add: calculate_tax_liability_def Let_def split: prod.splits)
  have a: "\<forall>e\<in>set (snd (snd (tax_loop ?bs 0 income []))).
            0 < income_in_bracket e \<and> tax_amount e = income_in_bracket e * rate e"
    using tax_loop_entries [of "[]" _ ?bs 0 income] by simp
  have b: "fst (tax_loop ?bs 0 income [])
             = sum_list (map tax_amount (snd (snd (tax_loop ?bs 0 income []))))"
    if "\<forall>b\<in>set brackets. span_ok b"
    using tax_loop_total_breakdown [of ?bs 0 income "[]"] that by simp
  show ?thesis using a b unfolding bd total_tax_calc by blast
qed

theorem breakdown_consistent_witness:
  "list_all span_ok default_tax_brackets
   \<and> list_all (\<lambda>e. 0 < income_in_bracket e \<and> tax_amount e = income_in_bracket e * rate e)
        (bracket_breakdown (calculate_tax_liability 75000 default_tax_brackets))
   \<and> bracket_breakdown (calculate_tax_liability 75000 default_tax_brackets) \<noteq> []
   \<and> total_tax (calculate_tax_liability 75000 default_tax_brackets)
        = sum_list (map tax_amount
            (bracket_breakdown (calculate_tax_liability 75000 default_tax_brackets)))"
proof -
  have ok: "\<forall>b\<in>set default_tax_brackets. span_ok b"
    by (simp add: default_tax_brackets_def span_ok_def)
  have ne: "bracket_breakdown (calculate_tax_liability 75000 default_tax_brackets) \<noteq> []"
    by (simp add: calculate_tax_liability_def default_tax_brackets_def bracket_income_def Let_def)
  show ?thesis
    using breakdown_consistent [of 75000 default_tax_brackets] ok ne
    by (simp add: list_all_iff)
qed

text \<open>
  With a bracket whose \<open>max\<close> lies below its \<open>min\<close> the loop adds the negative
  \<open>(max - min) * rate\<close> to \<open>total_tax\<close> and appends no entry, so the total is not
  the sum over the breakdown.
\<close>

theorem breakdown_total_counterexample:
  "total_tax (calculate_tax_liability 100
       [\<lparr>min_amount = 10, max_amount = Amount 5, rate = 1 / 10\<rparr>]) = - (1 / 2)
   \<and> bracket_breakdown (calculate_tax_liability 100
       [\<lparr>min_amount = 10, max_amount = Amount 5, rate = 1 / 10\<rparr>]) = []
   \<and> total_tax (calculate_tax_liability 100
       [\<lparr>min_amount = 10, max_amount = Amount 5, rate = 1 / 10\<rparr>])
      \<noteq> sum_list (map tax_amount (bracket_breakdown (calculate_tax_liability 100
           [\<lparr>min_amount = 10, max_amount = Amount 5, rate = 1 / 10\<rparr>])))"
  by (simp add: calculate_tax_liability_def bracket_income_def Let_def)

section \<open>Properties of the split-column amount\<close>

lemma combined_amount_cases:
  "combined_amount c d = (if d \<noteq> 0 then - \<bar>d\<bar> else c)"
  by (simp add: combined_amount_def Let_def)

text \<open>
  Claim C3. When both parsed values of a row are non-zero the claim expects
  \<open>credit + debit\<close> (debit taken negative). The second masked overwrite has no
  test that the credit is zero, so the code stores the negative debit alone: credit
  100 and debit 50 give -50, not 50. When exactly one value is non-zero the result
  is that value (credit as parsed, debit negative), as the claim says.
\<close>

theorem split_columns_both_nonzero:
  "combined_amount 100 50 = - 50 \<and> (100::rat) + - \<bar>50\<bar> = 50
   \<and> combined_amount 100 50 \<noteq> 100 + - \<bar>50\<bar>
   \<and> combined_amount 0 120 = - 120 \<and> combined_amount 250 0 = 250"
  by (simp add: combined_amount_def Let_def)

section \<open>Properties of the ledger merge\<close>

lemma keys_drop_from:
  "f ` set (drop_duplicates_from seen f xs) = f ` set xs - set seen"
  by (induction xs arbitrary: seen) auto

lemma distinct_drop_from:
  "distinct (map f (drop_duplicates_from seen f xs))"
proof (induction xs arbitrary: seen)
  case Nil
  show ?case by simp
next
  case (Cons x xs)
  have "f x \<notin> f ` set (drop_duplicates_from (f x # seen) f xs)"
    by (simp add: keys_drop_from)
  then show ?case using Cons.IH by simp
qed

lemma subset_drop_from: "set (drop_duplicates_from seen f xs) \<subseteq> set xs"
  by (induction xs arbitrary: seen) auto

lemma first_seen_drop_from:
  "r \<in> set (drop_duplicates_from seen f xs) \<Longrightarrow> find (\<lambda>x. f x = f r) xs = Some r"
proof (induction xs arbitrary: seen)
  case Nil
  then show ?case by simp
next
  case (Cons x xs)
  show ?case
  proof (cases "f x \<in> set seen")
    case True
    then have in_rest: "r \<in> set (drop_duplicates_from seen f xs)" using Cons.prems by simp
    then have "f r \<in> f ` set xs - set seen" using keys_drop_from [of f seen xs] by blast
    then have "f x \<noteq> f r" using True by auto
    then show ?thesis using Cons.IH [OF in_rest] by simp
  next
    case False
    then have "r = x \<or> r \<in> set (drop_duplicates_from (f x # seen) f xs)"
      using Cons.prems by simp
    then show ?thesis
    proof
      assume "r = x"
      then show ?thesis by simp
    next
      assume in_rest: "r \<in> set (drop_duplicates_from (f x # seen) f xs)"
      then have "f r \<in> f ` set xs - set (f x # seen)"
        using keys_drop_from [of f "f x # seen" xs] by blast
      then have "f x \<noteq> f r" by auto
      then show ?thesis using Cons.IH [OF in_rest] by simp
    qed
  qed
qed

lemma length_drop_from:
  "length (drop_duplicates_from seen f xs) = card (f ` set xs - set seen)"
proof -
  have "length (drop_duplicates_from seen f xs) = length (map f (drop_duplicates_from seen f xs))"
    by simp
  also have "\<dots> = card (set (map f (drop_duplicates_from seen f xs)))"
    using distinct_drop_from [of f seen xs] by (simp only: distinct_card)
  also have "\<dots> = card (f ` set xs - set seen)" by (simp add: keys_drop_from)
  finally show ?thesis .
qed


lemma key_tag: "dedup_key (r\<lparr>statement_id := sid\<rparr>) = dedup_key r"
  by (simp add: dedup_key_def)

lemma keys_tagged: "map dedup_key (map (\<lambda>r. r\<lparr>statement_id := sid\<rparr>) rs) = map dedup_key rs"
  by (simp add: key_tag)

lemma set_sort_values: "set (sort_values_date_desc rs) = set rs"
  by (simp add: sort_values_date_desc_def)

lemma length_sort_values: "length (sort_values_date_desc rs) = length rs"
  by (simp add: sort_values_date_desc_def)

lemma sorted_desc_sort_values: "sorted (rev (map date (sort_values_date_desc rs)))"
proof -
  have "sorted (map (\<lambda>r. - date r) (sort_values_date_desc rs))"
    unfolding sort_values_date_desc_def by (rule sorted_sort_key)
  then have "sorted_wrt (\<lambda>x y. date y \<le> date x) (sort_values_date_desc rs)"
    by (simp add: sorted_wrt_map)
  then show ?thesis by (simp add: sorted_wrt_rev sorted_wrt_map)
qed

lemma distinct_map_insort_key:
  "distinct (map f (insort_key g x xs)) = (f x \<notin> f ` set xs \<and> distinct (map f xs))"
  by (induction xs) (auto simp: set_insort_key)

lemma distinct_map_sort_key: "distinct (map f (sort_key g xs)) = distinct (map f xs)"
  by (induction xs) (simp_all add: distinct_map_insort_key)

lemma distinct_keys_sort_values:
  "distinct (map dedup_key (sort_values_date_desc rs)) = distinct (map dedup_key rs)"
  by (simp add: sort_values_date_desc_def distinct_map_sort_key)

lemma find_append_first:
  "find P xs = Some y \<Longrightarrow> find P (xs @ ys) = Some y"
  by (induction xs) (auto split: if_splits)

text \<open>
  The branch for a ledger that is not empty. The batch, tagged with its statement id,
  is appended to the ledger; of the rows that share a
  \<open>(date, description, amount)\<close> triple only the first is kept, so every triple
  stays represented once and a row of the ledger wins over an incoming duplicate; the
  rows come back sorted by date descending.
\<close>

lemma merge_dedup_branch:
  assumes "existing \<noteq> []" and "batch \<noteq> []"
  shows "set (merge_statements sid existing batch)
           \<subseteq> set (existing @ map (\<lambda>r. r\<lparr>statement_id := sid\<rparr>) batch)
       \<and> dedup_key ` set (merge_statements sid existing batch)
           = dedup_key ` set (existing @ map (\<lambda>r. r\<lparr>statement_id := sid\<rparr>) batch)
       \<and> distinct (map dedup_key (merge_statements sid existing batch))
       \<and> (\<forall>r\<in>set (merge_statements sid existing batch).
             find (\<lambda>x. dedup_key x = dedup_key r)
               (existing @ map (\<lambda>r. r\<lparr>statement_id := sid\<rparr>) batch) = Some r)
       \<and> (\<forall>r\<in>set (merge_statements sid existing batch).
             dedup_key r \<in> dedup_key ` set existing \<longrightarrow> r \<in> set existing)
       \<and> sorted (rev (map date (merge_statements sid existing batch)))"
proof -
  let ?all = "existing @ map (\<lambda>r. r\<lparr>statement_id := sid\<rparr>) batch"
  let ?res = "merge_statements sid existing batch"
  have res: "?res = sort_values_date_desc (drop_duplicates ?all)"
    using assms by (simp add: merge_statements_def Let_def)
  have set_res: "set ?res = set (drop_duplicates_from [] dedup_key ?all)"
    unfolding res by (simp add: set_sort_values drop_duplicates_def)
  have a: "set ?res \<subseteq> set ?all"
    unfolding set_res by (rule subset_drop_from)
  have b: "dedup_key ` set ?res = dedup_key ` set ?all"
    unfolding set_res using keys_drop_from [of dedup_key "[]" ?all] by simp
  have c: "distinct (map dedup_key ?res)"
    unfolding res by (simp add: distinct_keys_sort_values drop_duplicates_def distinct_drop_from)
  have d: "\<forall>r\<in>set ?res. find (\<lambda>x. dedup_key x = dedup_key r) ?all = Some r"
    unfolding set_res using first_seen_drop_from by fast
  have e: "\<forall>r\<in>set ?res. dedup_key r \<in> dedup_key ` set existing \<longrightarrow> r \<in> set existing"
  proof (intro ballI impI)
    fix r
    assume r: "r \<in> set ?res" and k: "dedup_key r \<in> dedup_key ` set existing"
    from k obtain x where x: "x \<in> set existing" "dedup_key x = dedup_key r" by auto
    have "find (\<lambda>x. dedup_key x = dedup_key r) existing \<noteq> None"
      using x by (auto simp: find_None_iff)
    then obtain y where y: "find (\<lambda>x. dedup_key x = dedup_key r) existing = Some y" by auto
    then have "find (\<lambda>x. dedup_key x = dedup_key r) ?all = Some y"
      by (rule find_append_first)
    then have "y = r" using d r by simp
    moreover have "y \<in> set existing" using y by (auto simp: find_Some_iff)
    ultimately show "r \<in> set existing" by simp
  qed
  have f: "sorted (rev (map date ?res))"
    unfolding res by (rule sorted_desc_sort_values)
  show ?thesis using a b c d e f by blast
qed

text \<open>
  Claim C6. For every batch whose rows have pairwise distinct
  \<open>(date, description, amount)\<close> triples, importing it into the empty ledger
  gives as many rows as the batch has, and importing it again into the ledger that
  resulted (whatever the classifier wrote into its category columns) still gives
  exactly that many rows.
\<close>

theorem import_twice_count:
  assumes "distinct (map dedup_key batch)"
    and "map dedup_key ledger = map dedup_key (merge_statements sid1 [] batch)"
  shows "length (merge_statements sid1 [] batch) = length batch
       \<and> length (merge_statements sid2 ledger batch) = length batch"
proof (cases "batch = []")
  case True
  then have "merge_statements sid1 [] batch = []" by (simp add: merge_statements_def)
  then have "ledger = []" using assms(2) by simp
  then show ?thesis using True by (simp add: merge_statements_def)
next
  case ne: False
  let ?tag = "\<lambda>sid. map (\<lambda>r. r\<lparr>statement_id := sid\<rparr>) batch"
  have first: "merge_statements sid1 [] batch = sort_values_date_desc (?tag sid1)"
    using ne by (simp add: merge_statements_def Let_def)
  have len1: "length (merge_statements sid1 [] batch) = length batch"
    unfolding first by (simp add: length_sort_values)
  have "length (map dedup_key ledger) = length (map dedup_key (merge_statements sid1 [] batch))"
    using assms(2) by simp
  then have len_ledger: "length ledger = length batch" using len1 by simp
  then have ledger_ne: "ledger \<noteq> []" using ne by auto
  have "set (map dedup_key ledger) = dedup_key ` set (sort_values_date_desc (?tag sid1))"
    using assms(2) first by simp
  also have "\<dots> = set (map dedup_key (?tag sid1))"
    by (simp only: set_sort_values set_map)
  also have "\<dots> = set (map dedup_key batch)" by (simp only: keys_tagged)
  finally have keys_ledger: "dedup_key ` set ledger = dedup_key ` set batch" by simp
  have "merge_statements sid2 ledger batch
          = sort_values_date_desc (drop_duplicates (ledger @ ?tag sid2))"
    using ne ledger_ne by (simp add: merge_statements_def Let_def)
  then have "length (merge_statements sid2 ledger batch)
               = card (dedup_key ` set (ledger @ ?tag sid2))"
    by (simp add: length_sort_values drop_duplicates_def length_drop_from)
  also have "dedup_key ` set (ledger @ ?tag sid2) = dedup_key ` set batch"
  proof -
    have "dedup_key ` set (?tag sid2) = dedup_key ` set batch"
      by (simp add: image_image key_tag)
    then show ?thesis using keys_ledger by (simp only: set_append image_Un) simp
  qed
  also have "card (dedup_key ` set batch) = length batch"
    using assms(1) distinct_card [of "map dedup_key batch"] by simp
  finally have len2: "length (merge_statements sid2 ledger batch) = length batch" .
  show ?thesis using len1 len2 by simp
qed

theorem import_twice_count_witness:
  "distinct (map dedup_key [rent, salary, coffee])
   \<and> length (merge_statements ''a'' [] [rent, salary, coffee]) = 3
   \<and> length (merge_statements ''b'' (merge_statements ''a'' [] [rent, salary, coffee])
        [rent, salary, coffee]) = 3"
proof -
  have d: "distinct (map dedup_key [rent, salary, coffee])"
    by (simp add: dedup_key_def rent_def salary_def coffee_def)
  show ?thesis
    using import_twice_count [OF d refl, of "''a''" "''b''"] d by simp
qed

text \<open>
  Claim C7. The claim is that for every existing ledger and new batch the merge
  appends the batch, removes every row whose \<open>(date, description, amount)\<close> triple
  duplicates an earlier row, keeping the first, and returns the rows sorted by date
  descending. The handler deduplicates only in the branch for a ledger that is not
  empty. On the empty ledger a batch that holds the same row twice keeps both rows,
  so two rows of the result share a triple; the same batch merged into a ledger of
  one other row keeps one of them, and importing the batch once more into the ledger
  of the first import leaves one.
\<close>

theorem merge_empty_ledger_keeps_duplicates:
  "merge_statements ''a'' [] [coffee, coffee]
     = [coffee\<lparr>statement_id := ''a''\<rparr>, coffee\<lparr>statement_id := ''a''\<rparr>]
   \<and> \<not> distinct (map dedup_key (merge_statements ''a'' [] [coffee, coffee]))
   \<and> merge_statements ''b'' [rent] [coffee, coffee]
       = [coffee\<lparr>statement_id := ''b''\<rparr>, rent]
   \<and> merge_statements ''b'' (merge_statements ''a'' [] [coffee, coffee]) [coffee, coffee]
       = [coffee\<lparr>statement_id := ''a''\<rparr>]"
  by (simp add: merge_statements_def drop_duplicates_def sort_values_date_desc_def
      dedup_key_def Let_def rent_def coffee_def)

section \<open>Properties of vendor matching\<close>






end
